theory Spec2Isabelle
  imports Complex_Main "HOL-Library.Monad_Syntax"
begin

section \<open>Data model (src/types.ts)\<close>

text \<open>
  JavaScript numbers are modelled by the reals: every length, position and pixel count
  below is a \<open>real\<close>, and the arithmetic of the source is read as exact arithmetic.
  The tolerances that the source adds to its comparisons (\<open>+ 0.001\<close>) are kept as written.
  A copy count is a natural number: the source creates it as \<open>1\<close> and only ever changes
  it to \<open>Math.max(1, copies + delta)\<close>.
\<close>

text \<open>
  The display names of the catalog write the inch mark as \<open>in\<close>; no function reads them.
\<close>

record PhotoSize =
  size_id :: string
  size_name :: string
  widthCm :: real
  heightCm :: real

definition STANDARD_SIZES :: "PhotoSize list" where
  "STANDARD_SIZES =
    [ \<lparr>size_id = ''10x15'', size_name = ''10x15 (4x6 in)'', widthCm = 10, heightCm = 15\<rparr>,
      \<lparr>size_id = ''13x18'', size_name = ''13x18 (5x7 in)'', widthCm = 13, heightCm = 18\<rparr>,
      \<lparr>size_id = ''15x21'', size_name = ''15x21 (6x8 in)'', widthCm = 15, heightCm = 21\<rparr>,
      \<lparr>size_id = ''20x25'', size_name = ''20x25 (8x10 in)'', widthCm = 20, heightCm = 25\<rparr>,
      \<lparr>size_id = ''10x10'', size_name = ''10x10 (4x4 in)'', widthCm = 10, heightCm = 10\<rparr>,
      \<lparr>size_id = ''5x7'', size_name = ''5x7 (2x3 in)'', widthCm = 5, heightCm = 7\<rparr>,
      \<lparr>size_id = ''3x4'', size_name = ''3x4'', widthCm = 3, heightCm = 4\<rparr> ]"

definition A4_WIDTH_CM :: real where
  "A4_WIDTH_CM = 21"

definition A4_HEIGHT_CM :: real where
  "A4_HEIGHT_CM = 29.7"

text \<open>
  An \<open>ImageFile\<close> of the source also carries the browser's file handle and preview URL;
  the layout never reads them, so the record keeps the identifier, the copy count and the
  pixel dimensions (\<open>0\<close> and \<open>0\<close> until the image has been decoded).
\<close>

record ImageFile =
  img_id :: string
  copies :: nat
  width :: real
  height :: real

text \<open>A freshly uploaded image, as \<open>handleFileUpload\<close> creates it.\<close>

definition newImage :: "string \<Rightarrow> ImageFile" where
  "newImage ident = \<lparr>img_id = ident, copies = 1, width = 0, height = 0\<rparr>"

datatype CustomUnit = Cm | Inch | Px

datatype Orientation = Auto | Portrait | Landscape

datatype FitMode = Cover | Contain

record PrintSettings =
  sizeId :: string
  customWidth :: real
  customHeight :: real
  customUnit :: CustomUnit
  hasBorder :: bool
  isPolaroid :: bool
  orientation :: Orientation
  spacing :: real
  margin :: real
  fitMode :: FitMode

text \<open>The initial settings of the application (\<open>useState\<close> in \<open>App\<close>).\<close>

definition defaultSettings :: PrintSettings where
  "defaultSettings =
    \<lparr>sizeId = ''10x15'', customWidth = 10, customHeight = 15, customUnit = Cm,
     hasBorder = False, isPolaroid = False, orientation = Auto,
     spacing = 0.2, margin = 0.3, fitMode = Cover\<rparr>"

section \<open>Target size resolution (getTargetSize, src/App.tsx)\<close>

text \<open>
  \<open>size?.widthCm || 10\<close> takes the default both when no catalog entry was found and when
  the entry's field is falsy (zero).
\<close>

definition getTargetSize :: "PrintSettings \<Rightarrow> real \<times> real" where
  "getTargetSize settings =
    (if sizeId settings = ''custom'' then
       (let w = customWidth settings; h = customHeight settings in
        if customUnit settings = Inch then (w * 2.54, h * 2.54)
        else if customUnit settings = Px then ((w * 2.54) / 300, (h * 2.54) / 300)
        else (w, h))
     else
       (case find (\<lambda>s. size_id s = sizeId settings) STANDARD_SIZES of
          None \<Rightarrow> (10, 15)
        | Some sz \<Rightarrow>
            (if widthCm sz = 0 then 10 else widthCm sz,
             if heightCm sz = 0 then 15 else heightCm sz)))"

section \<open>Layout engine (calculateLayout, src/App.tsx)\<close>

record PlacedItem =
  item_img :: ImageFile
  item_x :: real
  item_y :: real
  item_w :: real
  item_h :: real
  isRotated :: bool

record LayoutState =
  pages :: "PlacedItem list list"
  currentImages :: "PlacedItem list"
  currentX :: real
  currentY :: real
  rowHeight :: real

text \<open>The copy fan-out: every image is pushed \<open>copies\<close> times, in input order.\<close>

definition allItemsToPrint :: "ImageFile list \<Rightarrow> ImageFile list" where
  "allItemsToPrint images = concat (map (\<lambda>img. replicate (copies img) img) images)"

text \<open>The orientation decision: the effective slot width, height and the rotated flag.\<close>

definition orientSlot :: "PrintSettings \<Rightarrow> real \<times> real \<Rightarrow> ImageFile \<Rightarrow> real \<times> real \<times> bool" where
  "orientSlot settings targetSize img =
    (let w = fst targetSize; h = snd targetSize in
     case orientation settings of
       Auto \<Rightarrow>
         (let imgIsLandscape = (width img > height img);
              targetIsLandscape = (w > h)
          in if imgIsLandscape \<noteq> targetIsLandscape then (h, w, True) else (w, h, False))
     | Landscape \<Rightarrow> (if w < h then (h, w, True) else (w, h, False))
     | Portrait \<Rightarrow> (if w > h then (h, w, True) else (w, h, False)))"

definition initialState :: "PrintSettings \<Rightarrow> LayoutState" where
  "initialState settings =
    \<lparr>pages = [], currentImages = [], currentX = margin settings,
     currentY = margin settings, rowHeight = 0\<rparr>"

text \<open>The row check of the loop body: wrap to a new row when the item does not fit.\<close>

definition wrapRow :: "PrintSettings \<Rightarrow> real \<Rightarrow> LayoutState \<Rightarrow> LayoutState" where
  "wrapRow settings w st =
    (if currentX st + w > A4_WIDTH_CM - margin settings + 0.001 then
       st\<lparr>currentX := margin settings,
          currentY := currentY st + (rowHeight st + spacing settings),
          rowHeight := 0\<rparr>
     else st)"

text \<open>The page check of the loop body: seal the page when the item does not fit.\<close>

definition breakPage :: "PrintSettings \<Rightarrow> real \<Rightarrow> LayoutState \<Rightarrow> LayoutState" where
  "breakPage settings h st =
    (if currentY st + h > A4_HEIGHT_CM - margin settings + 0.001 then
       st\<lparr>pages := pages st @ [currentImages st],
          currentImages := [],
          currentX := margin settings,
          currentY := margin settings,
          rowHeight := 0\<rparr>
     else st)"

definition pushItem :: "PrintSettings \<Rightarrow> ImageFile \<Rightarrow> real \<Rightarrow> real \<Rightarrow> bool \<Rightarrow> LayoutState \<Rightarrow> LayoutState" where
  "pushItem settings img w h rot st =
    st\<lparr>currentImages := currentImages st @
          [\<lparr>item_img = img, item_x = currentX st, item_y = currentY st,
            item_w = w, item_h = h, isRotated = rot\<rparr>],
       currentX := currentX st + (w + spacing settings),
       rowHeight := max (rowHeight st) h\<rparr>"

text \<open>One iteration of \<open>allItemsToPrint.forEach\<close>.\<close>

definition placeItem :: "PrintSettings \<Rightarrow> real \<times> real \<Rightarrow> ImageFile \<Rightarrow> LayoutState \<Rightarrow> LayoutState" where
  "placeItem settings targetSize img st =
    (case orientSlot settings targetSize img of
       (w, h, rot) \<Rightarrow>
         pushItem settings img w h rot (breakPage settings h (wrapRow settings w st)))"

text \<open>The pages before the centering pass, the last page sealed when it holds an item.\<close>

definition packPages :: "ImageFile list \<Rightarrow> PrintSettings \<Rightarrow> PlacedItem list list" where
  "packPages images settings =
    (let st = fold (placeItem settings (getTargetSize settings))
                (allItemsToPrint images) (initialState settings)
     in if length (currentImages st) > 0 then pages st @ [currentImages st] else pages st)"

text \<open>
  The centering pass on one page. \<open>Math.min(...xs)\<close> and \<open>Math.max(...xs)\<close> are only
  evaluated on a page that holds an item.
\<close>

definition pageOffset :: "PlacedItem list \<Rightarrow> real" where
  "pageOffset page =
    (let minX = Min (set (map item_x page));
         maxX = Max (set (map (\<lambda>i. item_x i + item_w i) page));
         contentWidth = maxX - minX
     in (A4_WIDTH_CM - contentWidth) / 2 - minX)"

definition centerPage :: "PlacedItem list \<Rightarrow> PlacedItem list" where
  "centerPage page =
    (if length page = 0 then page
     else map (\<lambda>i. i\<lparr>item_x := item_x i + pageOffset page\<rparr>) page)"

definition calculateLayout :: "ImageFile list \<Rightarrow> PrintSettings \<Rightarrow> PlacedItem list list" where
  "calculateLayout images settings = map centerPage (packPages images settings)"

text \<open>
  Two concrete inputs: three freshly uploaded images, and the initial settings with a
  custom landscape slot of 15 by 10 centimetres.
\<close>

definition threeUnknown :: "ImageFile list" where
  "threeUnknown = [newImage ''a'', newImage ''b'', newImage ''c'']"

definition landscapeCustom :: PrintSettings where
  "landscapeCustom =
    defaultSettings\<lparr>sizeId := ''custom'', customWidth := 15, customHeight := 10\<rparr>"

section \<open>Slot rasterizer (generatePDF and saveToPNG, src/App.tsx)\<close>

text \<open>
  Both export functions decide the rotation and compute the crop or the scaled rectangle
  with the same statements. A JavaScript division by zero does not fail: it gives
  \<open>Infinity\<close>, \<open>-Infinity\<close> or \<open>NaN\<close>, which the reals do not have.
\<close>






text \<open>
  The fit step computes with its quotients, so it stays in the reals: \<open>quotient\<close>
  returns \<open>None\<close> at a zero divisor, and so does the fit step when it evaluates such
  a quotient.
\<close>

definition quotient :: "real \<Rightarrow> real \<Rightarrow> real option" where
  "quotient a b = (if b = 0 then None else Some (a / b))"

text \<open>
  The arguments of the final \<open>ctx.drawImage\<close> call: the source crop rectangle
  \<open>(sourceX, sourceY, sourceW, sourceH)\<close> when the call passes one, and the destination
  rectangle.
\<close>

record DrawCall =
  crop :: "(real \<times> real \<times> real \<times> real) option"
  dest :: "real \<times> real \<times> real \<times> real"

text \<open>
  The fit step, from the rotation decision, the image's pixel size and the usable
  rectangle \<open>(drawX, drawY, drawW, drawH)\<close> as it stands before the swap of a rotated
  image.
\<close>

definition fitImage ::
    "FitMode \<Rightarrow> bool \<Rightarrow> real \<Rightarrow> real \<Rightarrow> real \<times> real \<times> real \<times> real \<Rightarrow> DrawCall option" where
  "fitImage mode rot imgW imgH usable =
    (case usable of (drawX, drawY, w0, h0) \<Rightarrow>
      (let drawW = (if rot then h0 else w0);
           drawH = (if rot then w0 else h0)
       in do {
         currentImgAspect \<leftarrow> (if rot then quotient imgH imgW else quotient imgW imgH);
         targetAspect \<leftarrow> quotient drawW drawH;
         if mode = Cover then
           (if currentImgAspect > targetAspect then
              (let sourceW = imgH * targetAspect;
                   sourceX = (imgW - sourceW) / 2
               in Some \<lparr>crop = Some (sourceX, 0, sourceW, imgH),
                         dest = (drawX, drawY, drawW, drawH)\<rparr>)
            else do {
              sourceH \<leftarrow> quotient imgW targetAspect;
              Some \<lparr>crop = Some (0, (imgH - sourceH) * 0.35, imgW, sourceH),
                     dest = (drawX, drawY, drawW, drawH)\<rparr>
            })
         else
           (if currentImgAspect > targetAspect then do {
              finalDrawH \<leftarrow> quotient drawW currentImgAspect;
              Some \<lparr>crop = None,
                     dest = (drawX, drawY + (drawH - finalDrawH) / 2, drawW, finalDrawH)\<rparr>
            }
            else
              (let finalDrawW = drawH * currentImgAspect
               in Some \<lparr>crop = None,
                         dest = (drawX + (drawW - finalDrawW) / 2, drawY, finalDrawW, drawH)\<rparr>))
       }))"

section \<open>Geometric notions of the specification\<close>

text \<open>Two placed items overlap when their rectangles share interior points.\<close>

definition overlap :: "PlacedItem \<Rightarrow> PlacedItem \<Rightarrow> bool" where
  "overlap p q =
    (item_x p < item_x q + item_w q \<and> item_x q < item_x p + item_w p \<and>
     item_y p < item_y q + item_h q \<and> item_y q < item_y p + item_h p)"

text \<open>An item lies within the printable area of margin \<open>m\<close>, up to \<open>eps\<close>.\<close>

definition withinPage :: "real \<Rightarrow> real \<Rightarrow> PlacedItem \<Rightarrow> bool" where
  "withinPage m eps p =
    (m - eps \<le> item_x p \<and> item_x p + item_w p \<le> A4_WIDTH_CM - m + eps \<and>
     m - eps \<le> item_y p \<and> item_y p + item_h p \<le> A4_HEIGHT_CM - m + eps)"

text \<open>The effective slot of an image fits the printable area.\<close>

definition slotFits :: "PrintSettings \<Rightarrow> ImageFile \<Rightarrow> bool" where
  "slotFits settings img =
    (fst (orientSlot settings (getTargetSize settings) img)
       \<le> A4_WIDTH_CM - 2 * margin settings \<and>
     fst (snd (orientSlot settings (getTargetSize settings) img))
       \<le> A4_HEIGHT_CM - 2 * margin settings)"

text \<open>The extent of a page along the horizontal axis.\<close>

definition pageMinX :: "PlacedItem list \<Rightarrow> real" where
  "pageMinX page = Min (set (map item_x page))"

definition pageMaxX :: "PlacedItem list \<Rightarrow> real" where
  "pageMaxX page = Max (set (map (\<lambda>i. item_x i + item_w i) page))"

section \<open>The packing invariant\<close>

text \<open>
  Before the centering pass an item starts at the margin or after it and ends at most
  the tolerance of the row and page checks beyond the far margin.
\<close>

definition packedOK :: "real \<Rightarrow> PlacedItem \<Rightarrow> bool" where
  "packedOK m p =
    (m \<le> item_x p \<and> item_x p + item_w p \<le> A4_WIDTH_CM - m + 0.001 \<and>
     m \<le> item_y p \<and> item_y p + item_h p \<le> A4_HEIGHT_CM - m + 0.001)"

definition pageOK :: "real \<Rightarrow> PlacedItem list \<Rightarrow> bool" where
  "pageOK m page = (sorted_wrt (\<lambda>p q. \<not> overlap p q) page \<and> list_all (packedOK m) page)"

text \<open>
  An item of the current page lies above the cursor's row, or in that row to the left
  of the cursor and no taller than the row.
\<close>

definition behindCursor :: "LayoutState \<Rightarrow> PlacedItem \<Rightarrow> bool" where
  "behindCursor st p =
    (item_y p + item_h p \<le> currentY st \<or>
     (item_y p = currentY st \<and> item_x p + item_w p \<le> currentX st \<and> item_h p \<le> rowHeight st))"

definition packInv :: "PrintSettings \<Rightarrow> LayoutState \<Rightarrow> bool" where
  "packInv settings st =
    (list_all (pageOK (margin settings)) (pages st) \<and>
     pageOK (margin settings) (currentImages st) \<and>
     margin settings \<le> currentX st \<and> margin settings \<le> currentY st \<and>
     0 \<le> rowHeight st \<and>
     list_all (behindCursor st) (currentImages st))"

text \<open>Every item placed so far, in the order of placement.\<close>

definition placed :: "LayoutState \<Rightarrow> PlacedItem list" where
  "placed st = concat (pages st) @ currentImages st"

section \<open>Target size resolution: custom sizes and unknown size ids\<close>

text \<open>
  C9. For a custom size selection the resolved slot size is the custom width and height
  converted by unit: unchanged for centimetres, times 2.54 for inches, times 2.54/300 for
  pixels. In particular 1000 px by 1500 px resolves to (1000 * 2.54 / 300, 12.7), whose
  width is 8.467 up to a thousandth.
\<close>

theorem getTargetSize_custom:
  "sizeId settings = ''custom'' \<Longrightarrow>
     getTargetSize settings =
       (case customUnit settings of
          Cm \<Rightarrow> (customWidth settings, customHeight settings)
        | Inch \<Rightarrow> (customWidth settings * 2.54, customHeight settings * 2.54)
        | Px \<Rightarrow> (customWidth settings * 2.54 / 300, customHeight settings * 2.54 / 300))
   \<and> (customUnit settings = Px \<and> customWidth settings = 1000 \<and> customHeight settings = 1500
        \<longrightarrow> fst (getTargetSize settings) = 1000 * 2.54 / 300
          \<and> \<bar>fst (getTargetSize settings) - 8.467\<bar> < 0.001
          \<and> snd (getTargetSize settings) = 12.7)"
  by (cases "customUnit settings") (simp_all add: getTargetSize_def)

theorem getTargetSize_custom_witness:
  "getTargetSize \<lparr>sizeId = ''custom'', customWidth = 1000, customHeight = 1500,
       customUnit = Px, hasBorder = False, isPolaroid = False, orientation = Auto,
       spacing = 0.2, margin = 0.3, fitMode = Cover\<rparr> = (1000 * 2.54 / 300, 1500 * 2.54 / 300)
   \<and> \<bar>fst (getTargetSize \<lparr>sizeId = ''custom'', customWidth = 1000, customHeight = 1500,
       customUnit = Px, hasBorder = False, isPolaroid = False, orientation = Auto,
       spacing = 0.2, margin = 0.3, fitMode = Cover\<rparr>) - 8.467\<bar> < 0.001
   \<and> snd (getTargetSize \<lparr>sizeId = ''custom'', customWidth = 1000, customHeight = 1500,
       customUnit = Px, hasBorder = False, isPolaroid = False, orientation = Auto,
       spacing = 0.2, margin = 0.3, fitMode = Cover\<rparr>) = 12.7"
  using getTargetSize_custom [of "\<lparr>sizeId = ''custom'', customWidth = 1000,
       customHeight = 1500, customUnit = Px, hasBorder = False, isPolaroid = False,
       orientation = Auto, spacing = 0.2, margin = 0.3, fitMode = Cover\<rparr>"]
  by simp

text \<open>
  C10. For a size id that is neither \<open>custom\<close> nor the id of a catalog entry, target size
  resolution falls back to the default slot of 10 by 15 centimetres.
\<close>

theorem getTargetSize_unknown_id:
  "sizeId settings \<noteq> ''custom'' \<Longrightarrow>
   sizeId settings \<notin> set (map size_id STANDARD_SIZES) \<Longrightarrow>
   getTargetSize settings = (10, 15)"
  by (auto simp add: getTargetSize_def STANDARD_SIZES_def)

theorem getTargetSize_unknown_id_witness:
  "''9x13'' \<noteq> ''custom'' \<and> ''9x13'' \<notin> set (map size_id STANDARD_SIZES)
   \<and> getTargetSize \<lparr>sizeId = ''9x13'', customWidth = 10, customHeight = 15,
       customUnit = Cm, hasBorder = False, isPolaroid = False, orientation = Auto,
       spacing = 0.2, margin = 0.3, fitMode = Cover\<rparr> = (10, 15)"
  using getTargetSize_unknown_id [of "\<lparr>sizeId = ''9x13'', customWidth = 10,
       customHeight = 15, customUnit = Cm, hasBorder = False, isPolaroid = False,
       orientation = Auto, spacing = 0.2, margin = 0.3, fitMode = Cover\<rparr>"]
  by (simp add: STANDARD_SIZES_def)

section \<open>Copy fan-out and conservation of items\<close>

lemma placed_wrapRow: "placed (wrapRow settings w st) = placed st"
  by (simp add: placed_def wrapRow_def)

lemma placed_breakPage: "placed (breakPage settings h st) = placed st"
  by (simp add: placed_def breakPage_def)

lemma placed_pushItem:
  "placed (pushItem settings img w h rot st) =
     placed st @ [\<lparr>item_img = img, item_x = currentX st, item_y = currentY st,
                   item_w = w, item_h = h, isRotated = rot\<rparr>]"
  by (simp add: placed_def pushItem_def)

lemma imgs_placeItem:
  "map item_img (placed (placeItem settings t img st)) = map item_img (placed st) @ [img]"
  by (simp add: placeItem_def placed_pushItem placed_breakPage placed_wrapRow
      split: prod.split)

lemma imgs_fold:
  "map item_img (placed (fold (placeItem settings t) xs st)) = map item_img (placed st) @ xs"
  by (induction xs arbitrary: st) (simp_all add: imgs_placeItem)

lemma concat_packPages:
  "concat (packPages images settings) =
     placed (fold (placeItem settings (getTargetSize settings))
               (allItemsToPrint images) (initialState settings))"
  by (simp add: packPages_def placed_def Let_def)

lemma imgs_centerPage: "map item_img (centerPage page) = map item_img page"
  by (simp add: centerPage_def comp_def)

lemma imgs_concat_center:
  "map item_img (concat (map centerPage ps)) = map item_img (concat ps)"
  by (induction ps) (simp_all add: imgs_centerPage)

lemma length_allItemsToPrint:
  "length (allItemsToPrint images) = sum_list (map copies images)"
  by (induction images) (simp_all add: allItemsToPrint_def)

text \<open>
  C2. The placed items of all pages, read page by page, carry exactly the images of the
  copy fan-out in its order: every image appears \<open>copies\<close> times, its copies
  contiguous, before the copies of the next image. Hence the number of placed items is
  the sum of the copy counts, for every list of images and every settings value.
\<close>

theorem layout_conserves_copies:
  "map item_img (concat (calculateLayout images settings)) = allItemsToPrint images
   \<and> sum_list (map length (calculateLayout images settings)) = sum_list (map copies images)"
proof -
  have a: "map item_img (concat (calculateLayout images settings)) = allItemsToPrint images"
  proof -
    have "placed (initialState settings) = []"
      by (simp add: placed_def initialState_def)
    then show ?thesis
      by (simp add: calculateLayout_def imgs_concat_center concat_packPages imgs_fold)
  qed
  have "sum_list (map length (calculateLayout images settings))
          = length (concat (calculateLayout images settings))"
    by (simp add: length_concat)
  also have "\<dots> = length (map item_img (concat (calculateLayout images settings)))"
    by simp
  also have "\<dots> = sum_list (map copies images)"
    by (simp only: a length_allItemsToPrint)
  finally show ?thesis using a by simp
qed

section \<open>The packing invariant holds throughout the loop\<close>

lemma packInv_initial: "packInv settings (initialState settings)"
  by (simp add: packInv_def initialState_def pageOK_def)

lemma packInv_wrapRow:
  assumes "packInv settings st" "0 \<le> spacing settings"
  shows "packInv settings (wrapRow settings w st)"
proof (cases "currentX st + w > A4_WIDTH_CM - margin settings + 0.001")
  case False
  then show ?thesis using assms by (simp add: wrapRow_def)
next
  case True
  have "list_all (\<lambda>p. item_y p + item_h p \<le> currentY st + (rowHeight st + spacing settings))
          (currentImages st)"
    using assms by (auto simp add: packInv_def list_all_iff behindCursor_def)
  then show ?thesis
    using assms True by (auto simp add: wrapRow_def packInv_def list_all_iff behindCursor_def)
qed

lemma packInv_breakPage:
  assumes "packInv settings st"
  shows "packInv settings (breakPage settings h st)"
  using assms by (auto simp add: breakPage_def packInv_def pageOK_def)

lemma wrapRow_fits:
  assumes "w \<le> A4_WIDTH_CM - 2 * margin settings"
  shows "currentX (wrapRow settings w st) + w \<le> A4_WIDTH_CM - margin settings + 0.001"
  using assms by (auto simp add: wrapRow_def)

lemma breakPage_fits:
  assumes "h \<le> A4_HEIGHT_CM - 2 * margin settings"
  shows "currentY (breakPage settings h st) + h \<le> A4_HEIGHT_CM - margin settings + 0.001"
  using assms by (auto simp add: breakPage_def)

lemma breakPage_keeps_x:
  assumes "currentX st + w \<le> A4_WIDTH_CM - margin settings + 0.001"
    and "w \<le> A4_WIDTH_CM - 2 * margin settings"
  shows "currentX (breakPage settings h st) + w \<le> A4_WIDTH_CM - margin settings + 0.001"
  using assms by (auto simp add: breakPage_def)

lemma packInv_pushItem:
  assumes inv: "packInv settings st"
    and sp: "0 \<le> spacing settings" and w0: "0 \<le> w" and h0: "0 \<le> h"
    and fx: "currentX st + w \<le> A4_WIDTH_CM - margin settings + 0.001"
    and fy: "currentY st + h \<le> A4_HEIGHT_CM - margin settings + 0.001"
  shows "packInv settings (pushItem settings img w h rot st)"
proof -
  let ?new = "\<lparr>item_img = img, item_x = currentX st, item_y = currentY st,
               item_w = w, item_h = h, isRotated = rot\<rparr>"
  have ok: "packedOK (margin settings) ?new"
    using inv fx fy by (simp add: packedOK_def packInv_def)
  have apart: "\<forall>p\<in>set (currentImages st). \<not> overlap p ?new"
    using inv by (auto simp add: packInv_def list_all_iff behindCursor_def overlap_def)
  have page: "pageOK (margin settings) (currentImages st @ [?new])"
    using inv ok apart by (simp add: packInv_def pageOK_def sorted_wrt_append)
  have behind: "list_all (behindCursor (pushItem settings img w h rot st)) (currentImages st @ [?new])"
    using inv sp w0 h0 by (auto simp add: packInv_def list_all_iff behindCursor_def pushItem_def)
  have cursor: "margin settings \<le> currentX st + (w + spacing settings)"
    "0 \<le> max (rowHeight st) h"
    using inv sp w0 by (auto simp add: packInv_def)
  show ?thesis
    using inv page behind cursor
    by (simp add: packInv_def pushItem_def)
qed

lemma packInv_placeItem:
  assumes inv: "packInv settings st"
    and sp: "0 \<le> spacing settings"
    and t0: "0 \<le> fst t" "0 \<le> snd t"
    and fits: "fst (orientSlot settings t img) \<le> A4_WIDTH_CM - 2 * margin settings
                \<and> fst (snd (orientSlot settings t img)) \<le> A4_HEIGHT_CM - 2 * margin settings"
  shows "packInv settings (placeItem settings t img st)"
proof -
  obtain w h rot where o: "orientSlot settings t img = (w, h, rot)"
    by (cases "orientSlot settings t img") auto
  have pos: "0 \<le> w" "0 \<le> h"
    using o t0 by (auto simp add: orientSlot_def Let_def split: Orientation.splits if_splits)
  have fw: "w \<le> A4_WIDTH_CM - 2 * margin settings"
    and fh: "h \<le> A4_HEIGHT_CM - 2 * margin settings"
    using fits o by auto
  let ?st = "breakPage settings h (wrapRow settings w st)"
  have "packInv settings ?st"
    using inv sp by (simp add: packInv_wrapRow packInv_breakPage)
  moreover have "currentX ?st + w \<le> A4_WIDTH_CM - margin settings + 0.001"
    using fw by (intro breakPage_keeps_x wrapRow_fits)
  moreover have "currentY ?st + h \<le> A4_HEIGHT_CM - margin settings + 0.001"
    using fh by (rule breakPage_fits)
  ultimately have "packInv settings (pushItem settings img w h rot ?st)"
    using sp pos by (simp add: packInv_pushItem)
  then show ?thesis by (simp add: placeItem_def o)
qed

lemma packInv_fold:
  assumes "packInv settings st"
    and "0 \<le> spacing settings" "0 \<le> fst t" "0 \<le> snd t"
    and "\<forall>img\<in>set xs. fst (orientSlot settings t img) \<le> A4_WIDTH_CM - 2 * margin settings
                \<and> fst (snd (orientSlot settings t img)) \<le> A4_HEIGHT_CM - 2 * margin settings"
  shows "packInv settings (fold (placeItem settings t) xs st)"
  using assms
proof (induction xs arbitrary: st)
  case Nil
  then show ?case by simp
next
  case (Cons a xs)
  then show ?case by (simp add: packInv_placeItem)
qed

lemma set_allItemsToPrint: "set (allItemsToPrint images) \<subseteq> set images"
  by (auto simp add: allItemsToPrint_def)

lemma packPages_ok:
  assumes "0 \<le> spacing settings"
    and "0 \<le> fst (getTargetSize settings)" "0 \<le> snd (getTargetSize settings)"
    and "\<forall>img\<in>set images. slotFits settings img"
  shows "list_all (pageOK (margin settings)) (packPages images settings)"
proof -
  let ?st = "fold (placeItem settings (getTargetSize settings))
                (allItemsToPrint images) (initialState settings)"
  have "packInv settings ?st"
    using assms set_allItemsToPrint [of images]
    by (intro packInv_fold packInv_initial) (auto simp add: slotFits_def)
  then show ?thesis
    by (simp add: packPages_def Let_def packInv_def)
qed

lemma overlap_shift:
  "overlap (p\<lparr>item_x := item_x p + c\<rparr>) (q\<lparr>item_x := item_x q + c\<rparr>) = overlap p q"
  by (auto simp add: overlap_def)

lemma centerPage_no_overlap:
  "sorted_wrt (\<lambda>p q. \<not> overlap p q) page
     \<Longrightarrow> sorted_wrt (\<lambda>p q. \<not> overlap p q) (centerPage page)"
  by (simp add: centerPage_def sorted_wrt_map overlap_shift)

lemma centerPage_within:
  assumes "list_all (packedOK m) page"
  shows "list_all (withinPage m 0.001) (centerPage page)"
proof (cases "page = []")
  case True
  then show ?thesis by (simp add: centerPage_def)
next
  case False
  let ?minX = "Min (set (map item_x page))"
  let ?maxX = "Max (set (map (\<lambda>i. item_x i + item_w i) page))"
  have ne: "set (map item_x page) \<noteq> {}" "set (map (\<lambda>i. item_x i + item_w i) page) \<noteq> {}"
    using False by simp_all
  have lo: "m \<le> ?minX"
    using assms ne by (auto simp add: list_all_iff packedOK_def)
  have hi: "?maxX \<le> A4_WIDTH_CM - m + 0.001"
    using assms ne by (auto simp add: list_all_iff packedOK_def)
  have each: "\<forall>p\<in>set page. ?minX \<le> item_x p \<and> item_x p + item_w p \<le> ?maxX"
    by auto
  have off: "pageOffset page = (A4_WIDTH_CM - (?maxX - ?minX)) / 2 - ?minX"
    by (simp add: pageOffset_def Let_def)
  have "\<forall>p\<in>set page. withinPage m 0.001 (p\<lparr>item_x := item_x p + pageOffset page\<rparr>)"
  proof
    fix p assume p: "p \<in> set page"
    have "packedOK m p" using assms p by (simp add: list_all_iff)
    moreover have "?minX \<le> item_x p" "item_x p + item_w p \<le> ?maxX" using each p by auto
    ultimately show "withinPage m 0.001 (p\<lparr>item_x := item_x p + pageOffset page\<rparr>)"
      using lo hi unfolding off by (simp add: withinPage_def packedOK_def field_simps)
  qed
  then show ?thesis using False by (simp add: centerPage_def list_all_iff)
qed

section \<open>The centering pass\<close>

lemma pageMinX_shift:
  "page \<noteq> [] \<Longrightarrow>
   pageMinX (map (\<lambda>i. i\<lparr>item_x := item_x i + c\<rparr>) page) = pageMinX page + c"
  using Min_add_commute [of "set page" item_x c]
  by (simp add: pageMinX_def image_image)

lemma pageMaxX_shift:
  "page \<noteq> [] \<Longrightarrow>
   pageMaxX (map (\<lambda>i. i\<lparr>item_x := item_x i + c\<rparr>) page) = pageMaxX page + c"
  using Max_add_commute [of "set page" "\<lambda>i. item_x i + item_w i" c]
  by (simp add: pageMaxX_def image_image add.assoc add.commute add.left_commute)

lemma pageOffset_extent:
  "pageOffset page = (A4_WIDTH_CM - (pageMaxX page - pageMinX page)) / 2 - pageMinX page"
  by (simp add: pageOffset_def pageMinX_def pageMaxX_def Let_def)

lemma centerPage_symmetric:
  assumes "page \<noteq> []"
  shows "A4_WIDTH_CM / 2 - pageMinX (centerPage page) = pageMaxX (centerPage page) - A4_WIDTH_CM / 2"
proof -
  have "centerPage page = map (\<lambda>i. i\<lparr>item_x := item_x i + pageOffset page\<rparr>) page"
    using assms by (simp add: centerPage_def)
  then have "pageMinX (centerPage page) = pageMinX page + pageOffset page"
    and "pageMaxX (centerPage page) = pageMaxX page + pageOffset page"
    using assms by (simp_all add: pageMinX_shift pageMaxX_shift)
  then show ?thesis
    by (simp add: pageOffset_extent field_simps)
qed

lemma centerPage_frame:
  "map item_y (centerPage page) = map item_y page"
  "map item_w (centerPage page) = map item_w page"
  "map item_h (centerPage page) = map item_h page"
  "map isRotated (centerPage page) = map isRotated page"
  "map item_img (centerPage page) = map item_img page"
  by (simp_all add: centerPage_def comp_def)

section \<open>Concrete layouts\<close>

lemma target_default: "getTargetSize defaultSettings = (10, 15)"
  by (simp add: getTargetSize_def defaultSettings_def STANDARD_SIZES_def)

lemma default_fields: "margin defaultSettings = 3 / 10" "spacing defaultSettings = 1 / 5"
  "orientation defaultSettings = Auto"
  by (simp_all add: defaultSettings_def)

lemma items3: "allItemsToPrint threeUnknown = [newImage ''a'', newImage ''b'', newImage ''c'']"
  by (simp add: allItemsToPrint_def threeUnknown_def newImage_def)

lemma orient_unknown: "orientSlot defaultSettings (10, 15) (newImage i) = (10, 15, False)"
  by (simp add: orientSlot_def default_fields newImage_def)

lemma place_first: "placeItem defaultSettings (10, 15) (newImage i)
     \<lparr>pages = [], currentImages = [], currentX = 3 / 10, currentY = 3 / 10, rowHeight = 0\<rparr>
   = \<lparr>pages = [], currentImages = [\<lparr>item_img = newImage i, item_x = 3 / 10, item_y = 3 / 10,
          item_w = 10, item_h = 15, isRotated = False\<rparr>],
      currentX = 21 / 2, currentY = 3 / 10, rowHeight = 15\<rparr>"
  by (simp add: placeItem_def orient_unknown wrapRow_def breakPage_def pushItem_def
      A4_WIDTH_CM_def A4_HEIGHT_CM_def default_fields)

lemma place_second: "placeItem defaultSettings (10, 15) (newImage i)
     \<lparr>pages = [], currentImages = [p], currentX = 21 / 2, currentY = 3 / 10, rowHeight = 15\<rparr>
   = \<lparr>pages = [], currentImages = [p, \<lparr>item_img = newImage i, item_x = 21 / 2, item_y = 3 / 10,
          item_w = 10, item_h = 15, isRotated = False\<rparr>],
      currentX = 207 / 10, currentY = 3 / 10, rowHeight = 15\<rparr>"
  by (simp add: placeItem_def orient_unknown wrapRow_def breakPage_def pushItem_def
      A4_WIDTH_CM_def A4_HEIGHT_CM_def default_fields)

lemma place_third: "placeItem defaultSettings (10, 15) (newImage i)
     \<lparr>pages = [], currentImages = [p, q], currentX = 207 / 10, currentY = 3 / 10, rowHeight = 15\<rparr>
   = \<lparr>pages = [[p, q]], currentImages = [\<lparr>item_img = newImage i, item_x = 3 / 10, item_y = 3 / 10,
          item_w = 10, item_h = 15, isRotated = False\<rparr>],
      currentX = 21 / 2, currentY = 3 / 10, rowHeight = 15\<rparr>"
  by (simp add: placeItem_def orient_unknown wrapRow_def breakPage_def pushItem_def
      A4_WIDTH_CM_def A4_HEIGHT_CM_def default_fields)

lemma packPages_threeUnknown: "packPages threeUnknown defaultSettings =
   [[\<lparr>item_img = newImage ''a'', item_x = 0.3, item_y = 0.3, item_w = 10, item_h = 15, isRotated = False\<rparr>,
     \<lparr>item_img = newImage ''b'', item_x = 10.5, item_y = 0.3, item_w = 10, item_h = 15, isRotated = False\<rparr>],
    [\<lparr>item_img = newImage ''c'', item_x = 0.3, item_y = 0.3, item_w = 10, item_h = 15, isRotated = False\<rparr>]]"
  by (simp add: packPages_def target_default items3 initialState_def default_fields
      place_first place_second place_third)

lemma centerPage_first:
  "centerPage [\<lparr>item_img = a, item_x = 3 / 10, item_y = 3 / 10, item_w = 10, item_h = 15, isRotated = False\<rparr>,
     \<lparr>item_img = b, item_x = 21 / 2, item_y = 3 / 10, item_w = 10, item_h = 15, isRotated = False\<rparr>]
   = [\<lparr>item_img = a, item_x = 2 / 5, item_y = 3 / 10, item_w = 10, item_h = 15, isRotated = False\<rparr>,
     \<lparr>item_img = b, item_x = 53 / 5, item_y = 3 / 10, item_w = 10, item_h = 15, isRotated = False\<rparr>]"
  by (simp add: centerPage_def pageOffset_def A4_WIDTH_CM_def)

lemma centerPage_second:
  "centerPage [\<lparr>item_img = c, item_x = 3 / 10, item_y = 3 / 10, item_w = 10, item_h = 15, isRotated = False\<rparr>]
   = [\<lparr>item_img = c, item_x = 11 / 2, item_y = 3 / 10, item_w = 10, item_h = 15, isRotated = False\<rparr>]"
  by (simp add: centerPage_def pageOffset_def A4_WIDTH_CM_def)

lemma target_landscapeCustom: "getTargetSize landscapeCustom = (15, 10)"
  by (simp add: getTargetSize_def landscapeCustom_def defaultSettings_def)

lemma orient_landscapeCustom:
  "orientSlot landscapeCustom (15, 10) (newImage i) = (10, 15, True)"
  by (simp add: orientSlot_def landscapeCustom_def defaultSettings_def newImage_def)

lemma newImage_unknown: "width (newImage i) = 0" "height (newImage i) = 0"
  by (simp_all add: newImage_def)

lemma landscapeCustom_fields: "margin landscapeCustom = 3 / 10"
  "spacing landscapeCustom = 1 / 5" "orientation landscapeCustom = Auto"
  by (simp_all add: landscapeCustom_def defaultSettings_def)

section \<open>Claims on the layout engine\<close>

text \<open>
  C1. Let the spacing and the natural slot size be non-negative, as the data model of
  the settings requires, and let the effective slot of every image fit the printable
  area. Then on every page of the layout no two placed items overlap, and every placed
  item lies within the margins on both axes up to the tolerance of 0.001 centimetres,
  the centering pass included.
\<close>

theorem layout_no_overlap_within_page:
  assumes "0 \<le> spacing settings"
    and "0 \<le> fst (getTargetSize settings)" and "0 \<le> snd (getTargetSize settings)"
    and "\<forall>img\<in>set images. slotFits settings img"
  shows "\<forall>page\<in>set (calculateLayout images settings).
           sorted_wrt (\<lambda>p q. \<not> overlap p q) page
           \<and> (\<forall>p\<in>set page. withinPage (margin settings) 0.001 p)"
proof
  fix page assume "page \<in> set (calculateLayout images settings)"
  then obtain packed where packed: "packed \<in> set (packPages images settings)"
    and page: "page = centerPage packed"
    by (auto simp add: calculateLayout_def)
  have "pageOK (margin settings) packed"
    using packPages_ok [of settings images] assms packed by (simp add: list_all_iff)
  then show "sorted_wrt (\<lambda>p q. \<not> overlap p q) page
           \<and> (\<forall>p\<in>set page. withinPage (margin settings) 0.001 p)"
    using centerPage_no_overlap [of packed] centerPage_within [of "margin settings" packed]
    by (simp add: page pageOK_def list_all_iff)
qed

theorem layout_no_overlap_within_page_witness:
  "0 \<le> spacing defaultSettings
   \<and> 0 \<le> fst (getTargetSize defaultSettings) \<and> 0 \<le> snd (getTargetSize defaultSettings)
   \<and> list_all (slotFits defaultSettings) threeUnknown
   \<and> list_all (\<lambda>page. sorted_wrt (\<lambda>p q. \<not> overlap p q) page
                 \<and> list_all (withinPage (margin defaultSettings) 0.001) page)
        (calculateLayout threeUnknown defaultSettings)"
proof -
  have a: "0 \<le> spacing defaultSettings" by (simp add: default_fields)
  have b: "0 \<le> fst (getTargetSize defaultSettings)" "0 \<le> snd (getTargetSize defaultSettings)"
    by (simp_all add: target_default)
  have c: "\<forall>img\<in>set threeUnknown. slotFits defaultSettings img"
    by (simp add: threeUnknown_def slotFits_def target_default orient_unknown default_fields
        A4_WIDTH_CM_def A4_HEIGHT_CM_def)
  have "\<forall>page\<in>set (calculateLayout threeUnknown defaultSettings).
           sorted_wrt (\<lambda>p q. \<not> overlap p q) page
           \<and> (\<forall>p\<in>set page. withinPage (margin defaultSettings) 0.001 p)"
    by (rule layout_no_overlap_within_page [OF a b c])
  then show ?thesis
    using a b c unfolding list_all_iff by blast
qed

text \<open>
  C3. Three images of unknown dimensions, slot 10 by 15, margin 0.3, spacing
  0.2, page 21 by 29.7: two items fit a row, at \<open>y = 0.3\<close> and \<open>x = 0.3 + offset\<close>
  and \<open>x = 10.5 + offset\<close> with the centering offset 0.1. A second row of height 15
  would end at 30.5, beyond the page check's limit 29.401, so the third item opens a
  second page, where it stands alone at \<open>y = 0.3\<close>, centred with the offset 5.2.
\<close>

theorem scenario_three_unknown:
  "calculateLayout threeUnknown defaultSettings =
   [[\<lparr>item_img = newImage ''a'', item_x = 0.3 + 0.1, item_y = 0.3,
       item_w = 10, item_h = 15, isRotated = False\<rparr>,
     \<lparr>item_img = newImage ''b'', item_x = 10.5 + 0.1, item_y = 0.3,
       item_w = 10, item_h = 15, isRotated = False\<rparr>],
    [\<lparr>item_img = newImage ''c'', item_x = 0.3 + 5.2, item_y = 0.3,
       item_w = 10, item_h = 15, isRotated = False\<rparr>]]"
  by (simp add: calculateLayout_def packPages_threeUnknown centerPage_first centerPage_second)

text \<open>
  The layout of this input has two pages, not one.
\<close>

theorem scenario_three_unknown_counterexample:
  "\<not> (\<exists>page. calculateLayout threeUnknown defaultSettings = [page])"
  by (simp add: calculateLayout_def packPages_threeUnknown)

text \<open>
  C4. Under the policy \<open>Auto\<close> an image of unknown dimensions (width and
  height 0) counts as not landscape: a natural slot that is not landscape is kept and
  the rotated flag is false; a landscape natural slot is swapped and the flag is true.
\<close>

theorem unknown_dimensions_auto:
  assumes "orientation settings = Auto" and "width img = 0" and "height img = 0"
  shows "orientSlot settings targetSize img =
           (if fst targetSize > snd targetSize
            then (snd targetSize, fst targetSize, True)
            else (fst targetSize, snd targetSize, False))"
  using assms by (simp add: orientSlot_def)

theorem unknown_dimensions_auto_witness:
  "orientSlot defaultSettings (10, 15) (newImage ''a'') = (10, 15, False)
   \<and> orientSlot landscapeCustom (15, 10) (newImage ''a'') = (10, 15, True)"
  using unknown_dimensions_auto [of defaultSettings "newImage ''a''" "(10, 15)"]
    unknown_dimensions_auto [of landscapeCustom "newImage ''a''" "(15, 10)"]
  by (simp add: default_fields landscapeCustom_fields newImage_unknown)

text \<open>
  With the custom landscape slot of 15 by 10 the image of unknown dimensions is placed in
  a swapped slot of 10 by 15 and marked rotated.
\<close>

theorem unknown_dimensions_auto_counterexample:
  "width (newImage ''a'') = 0 \<and> height (newImage ''a'') = 0
   \<and> orientation landscapeCustom = Auto
   \<and> getTargetSize landscapeCustom = (15, 10)
   \<and> orientSlot landscapeCustom (getTargetSize landscapeCustom) (newImage ''a'') = (10, 15, True)
   \<and> map (map (\<lambda>i. (item_w i, item_h i, isRotated i)))
        (calculateLayout [newImage ''a''] landscapeCustom) = [[(10, 15, True)]]"
proof -
  have items: "allItemsToPrint [newImage ''a''] = [newImage ''a'']"
    by (simp add: allItemsToPrint_def newImage_def)
  have "placeItem landscapeCustom (15, 10) (newImage ''a'')
          \<lparr>pages = [], currentImages = [], currentX = 3 / 10, currentY = 3 / 10, rowHeight = 0\<rparr>
      = \<lparr>pages = [], currentImages = [\<lparr>item_img = newImage ''a'', item_x = 3 / 10,
            item_y = 3 / 10, item_w = 10, item_h = 15, isRotated = True\<rparr>],
          currentX = 21 / 2, currentY = 3 / 10, rowHeight = 15\<rparr>"
    by (simp add: placeItem_def orient_landscapeCustom wrapRow_def breakPage_def pushItem_def
        A4_WIDTH_CM_def A4_HEIGHT_CM_def landscapeCustom_fields)
  then have "packPages [newImage ''a''] landscapeCustom =
      [[\<lparr>item_img = newImage ''a'', item_x = 3 / 10, item_y = 3 / 10,
         item_w = 10, item_h = 15, isRotated = True\<rparr>]]"
    by (simp add: packPages_def target_landscapeCustom items initialState_def
        landscapeCustom_fields)
  then have "map (map (\<lambda>i. (item_w i, item_h i, isRotated i)))
        (calculateLayout [newImage ''a''] landscapeCustom) = [[(10, 15, True)]]"
    by (simp add: calculateLayout_def centerPage_def)
  then show ?thesis
    by (simp add: target_landscapeCustom orient_landscapeCustom landscapeCustom_fields
        newImage_unknown)
qed

text \<open>
  C8. On every page of the packing that holds an item, the centering pass adds the same
  offset \<open>(pageWidth - contentWidth) / 2 - minX\<close> to the \<open>x\<close> of every item; afterwards
  the least \<open>x\<close> and the greatest \<open>x + w\<close> are symmetric about the middle of the
  page; \<open>y\<close>, width, height, rotated flag and image of every item are unchanged.
\<close>

theorem centering_pass:
  assumes "k < length (packPages images settings)"
    and "packPages images settings ! k \<noteq> []"
  shows "let before = packPages images settings ! k;
             after = calculateLayout images settings ! k;
             offsetX = (A4_WIDTH_CM - (pageMaxX before - pageMinX before)) / 2 - pageMinX before
         in after = map (\<lambda>i. i\<lparr>item_x := item_x i + offsetX\<rparr>) before
          \<and> A4_WIDTH_CM / 2 - pageMinX after = pageMaxX after - A4_WIDTH_CM / 2
          \<and> map item_y after = map item_y before
          \<and> map item_w after = map item_w before
          \<and> map item_h after = map item_h before
          \<and> map isRotated after = map isRotated before
          \<and> map item_img after = map item_img before"
proof -
  have "calculateLayout images settings ! k = centerPage (packPages images settings ! k)"
    using assms(1) by (simp add: calculateLayout_def)
  moreover have "centerPage (packPages images settings ! k) =
      map (\<lambda>i. i\<lparr>item_x := item_x i + pageOffset (packPages images settings ! k)\<rparr>)
        (packPages images settings ! k)"
    using assms(2) by (simp add: centerPage_def)
  ultimately show ?thesis
    using assms(2) centerPage_symmetric [of "packPages images settings ! k"]
      centerPage_frame [of "packPages images settings ! k"]
    by (simp add: Let_def pageOffset_extent)
qed

theorem centering_pass_witness:
  "let before = packPages threeUnknown defaultSettings ! 0;
       after = calculateLayout threeUnknown defaultSettings ! 0;
       offsetX = (A4_WIDTH_CM - (pageMaxX before - pageMinX before)) / 2 - pageMinX before
   in after = map (\<lambda>i. i\<lparr>item_x := item_x i + offsetX\<rparr>) before
    \<and> A4_WIDTH_CM / 2 - pageMinX after = pageMaxX after - A4_WIDTH_CM / 2
    \<and> map item_y after = map item_y before
    \<and> map item_w after = map item_w before
    \<and> map item_h after = map item_h before
    \<and> map isRotated after = map isRotated before
    \<and> map item_img after = map item_img before"
  by (rule centering_pass [of 0 threeUnknown defaultSettings];
      simp add: packPages_threeUnknown)

section \<open>Claims on the slot rasterizer\<close>







lemma fitImage_cover_pos:
  assumes "0 < imgW" "0 < imgH" "0 < w0" "0 < h0"
  shows "fitImage Cover rot imgW imgH (drawX, drawY, w0, h0) =
    (let drawW = (if rot then h0 else w0);
         drawH = (if rot then w0 else h0);
         destAspect = drawW / drawH;
         srcAspect = (if rot then imgH / imgW else imgW / imgH)
     in Some (if srcAspect > destAspect
         then \<lparr>crop = Some ((imgW - imgH * destAspect) / 2, 0, imgH * destAspect, imgH),
               dest = (drawX, drawY, drawW, drawH)\<rparr>
         else \<lparr>crop = Some (0, (imgH - imgW / destAspect) * 0.35, imgW, imgW / destAspect),
               dest = (drawX, drawY, drawW, drawH)\<rparr>))"
  using assms by (simp add: fitImage_def quotient_def Let_def)

lemma fitImage_contain_pos:
  assumes "0 < imgW" "0 < imgH" "0 < w0" "0 < h0"
  shows "fitImage Contain rot imgW imgH (drawX, drawY, w0, h0) =
    (let drawW = (if rot then h0 else w0);
         drawH = (if rot then w0 else h0);
         destAspect = drawW / drawH;
         srcAspect = (if rot then imgH / imgW else imgW / imgH)
     in Some (if srcAspect > destAspect
         then \<lparr>crop = None,
               dest = (drawX, drawY + (drawH - drawW / srcAspect) / 2, drawW, drawW / srcAspect)\<rparr>
         else \<lparr>crop = None,
               dest = (drawX + (drawW - drawH * srcAspect) / 2, drawY, drawH * srcAspect, drawH)\<rparr>))"
  using assms by (simp add: fitImage_def quotient_def Let_def)

text \<open>
  C6. In cover mode, for positive image and usable dimensions, the call draws into the
  full usable rectangle (swapped for a rotated image) from a crop rectangle whose aspect
  ratio is the destination's. When the effective source aspect exceeds the destination
  aspect the crop keeps the full image height, has width \<open>height * destAspect\<close> and is
  centred horizontally; otherwise it keeps the full image width, has height
  \<open>width / destAspect\<close> and starts at \<open>(height - croppedHeight) * 0.35\<close>.
\<close>

theorem cover_crop_matches_destination:
  assumes "0 < imgW" "0 < imgH" "0 < w0" "0 < h0"
  shows "let drawW = (if rot then h0 else w0);
             drawH = (if rot then w0 else h0);
             destAspect = drawW / drawH;
             srcAspect = (if rot then imgH / imgW else imgW / imgH)
         in case fitImage Cover rot imgW imgH (drawX, drawY, w0, h0) of
              None \<Rightarrow> False
            | Some call \<Rightarrow>
                dest call = (drawX, drawY, drawW, drawH) \<and>
                (case crop call of
                   None \<Rightarrow> False
                 | Some (sx, sy, sw, sh) \<Rightarrow>
                     sw / sh = destAspect \<and>
                     (if srcAspect > destAspect
                      then sh = imgH \<and> sw = imgH * destAspect \<and> sx = (imgW - sw) / 2 \<and> sy = 0
                      else sw = imgW \<and> sh = imgW / destAspect
                           \<and> sy = (imgH - sh) * 0.35 \<and> sx = 0))"
  using assms by (simp add: fitImage_cover_pos Let_def)

theorem cover_crop_matches_destination_witness:
  "let drawW = (if False then 1772 else 1181);
       drawH = (if False then 1181 else 1772);
       destAspect = drawW / drawH;
       srcAspect = (if False then 3000 / 4000 else 4000 / 3000)
   in case fitImage Cover False 4000 3000 (0, 0, 1181, 1772) of
        None \<Rightarrow> False
      | Some call \<Rightarrow>
          dest call = (0, 0, drawW, drawH) \<and>
          (case crop call of
             None \<Rightarrow> False
           | Some (sx, sy, sw, sh) \<Rightarrow>
               sw / sh = destAspect \<and>
               (if srcAspect > destAspect
                then sh = 3000 \<and> sw = 3000 * destAspect \<and> sx = (4000 - sw) / 2 \<and> sy = 0
                else sw = 4000 \<and> sh = 4000 / destAspect
                     \<and> sy = (3000 - sh) * 0.35 \<and> sx = 0))"
  by (rule cover_crop_matches_destination [of 4000 3000 1181 1772 False 0 0]; simp)

text \<open>
  C7. In contain mode, for positive image and usable dimensions, the call passes no crop
  rectangle; the scaled rectangle has the effective source aspect ratio, lies within the
  usable rectangle, and is centred vertically when the source is wider than the
  destination, horizontally otherwise.
\<close>

theorem contain_scales_inside:
  assumes "0 < imgW" "0 < imgH" "0 < w0" "0 < h0"
  shows "let drawW = (if rot then h0 else w0);
             drawH = (if rot then w0 else h0);
             destAspect = drawW / drawH;
             srcAspect = (if rot then imgH / imgW else imgW / imgH)
         in case fitImage Contain rot imgW imgH (drawX, drawY, w0, h0) of
              None \<Rightarrow> False
            | Some call \<Rightarrow>
                crop call = None \<and>
                (case dest call of (fx, fy, fw, fh) \<Rightarrow>
                   fw / fh = srcAspect
                   \<and> drawX \<le> fx \<and> fx + fw \<le> drawX + drawW
                   \<and> drawY \<le> fy \<and> fy + fh \<le> drawY + drawH
                   \<and> (if srcAspect > destAspect
                       then fw = drawW \<and> fx = drawX
                            \<and> fy - drawY = (drawY + drawH) - (fy + fh)
                       else fh = drawH \<and> fy = drawY
                            \<and> fx - drawX = (drawX + drawW) - (fx + fw)))"
proof -
  define drawW where "drawW = (if rot then h0 else w0)"
  define drawH where "drawH = (if rot then w0 else h0)"
  define srcAspect where "srcAspect = (if rot then imgH / imgW else imgW / imgH)"
  have pos: "0 < drawW" "0 < drawH" "0 < srcAspect"
    using assms by (simp_all add: drawW_def drawH_def srcAspect_def)
  have wide: "drawW / srcAspect \<le> drawH" if "srcAspect > drawW / drawH"
  proof -
    have "drawW < srcAspect * drawH" using that pos by (simp add: field_simps)
    then show ?thesis using pos by (simp add: field_simps)
  qed
  have tall: "drawH * srcAspect \<le> drawW" if "\<not> srcAspect > drawW / drawH"
    using that pos by (simp add: field_simps)
  have fit: "fitImage Contain rot imgW imgH (drawX, drawY, w0, h0) =
      Some (if srcAspect > drawW / drawH
         then \<lparr>crop = None,
               dest = (drawX, drawY + (drawH - drawW / srcAspect) / 2, drawW, drawW / srcAspect)\<rparr>
         else \<lparr>crop = None,
               dest = (drawX + (drawW - drawH * srcAspect) / 2, drawY, drawH * srcAspect, drawH)\<rparr>)"
    using assms by (simp add: fitImage_contain_pos Let_def drawW_def drawH_def srcAspect_def)
  have "case fitImage Contain rot imgW imgH (drawX, drawY, w0, h0) of
              None \<Rightarrow> False
            | Some call \<Rightarrow>
                crop call = None \<and>
                (case dest call of (fx, fy, fw, fh) \<Rightarrow>
                   fw / fh = srcAspect
                   \<and> drawX \<le> fx \<and> fx + fw \<le> drawX + drawW
                   \<and> drawY \<le> fy \<and> fy + fh \<le> drawY + drawH
                   \<and> (if srcAspect > drawW / drawH
                       then fw = drawW \<and> fx = drawX
                            \<and> fy - drawY = (drawY + drawH) - (fy + fh)
                       else fh = drawH \<and> fy = drawY
                            \<and> fx - drawX = (drawX + drawW) - (fx + fw)))"
  proof (cases "srcAspect > drawW / drawH")
    case True
    have half: "(drawH - a) / 2 + a \<le> drawH" if "a \<le> drawH" for a :: real
      using that by (simp add: field_simps)
    show ?thesis using True pos wide [OF True] half [OF wide [OF True]] by (simp add: fit)
  next
    case False
    have half: "(drawW - a) / 2 + a \<le> drawW" if "a \<le> drawW" for a :: real
      using that by (simp add: field_simps)
    show ?thesis using False pos tall [OF False] half [OF tall [OF False]] by (simp add: fit)
  qed
  then show ?thesis
    unfolding Let_def drawW_def drawH_def srcAspect_def .
qed

theorem contain_scales_inside_witness:
  "let drawW = (if False then 1772 else 1181);
       drawH = (if False then 1181 else 1772);
       destAspect = drawW / drawH;
       srcAspect = (if False then 3000 / 4000 else 4000 / 3000)
   in case fitImage Contain False 4000 3000 (0, 0, 1181, 1772) of
        None \<Rightarrow> False
      | Some call \<Rightarrow>
          crop call = None \<and>
          (case dest call of (fx, fy, fw, fh) \<Rightarrow>
             fw / fh = srcAspect
             \<and> 0 \<le> fx \<and> fx + fw \<le> 0 + drawW
             \<and> 0 \<le> fy \<and> fy + fh \<le> 0 + drawH
             \<and> (if srcAspect > destAspect
                 then fw = drawW \<and> fx = 0
                      \<and> fy - 0 = (0 + drawH) - (fy + fh)
                 else fh = drawH \<and> fy = 0
                      \<and> fx - 0 = (0 + drawW) - (fx + fw)))"
  by (rule contain_scales_inside [of 4000 3000 1181 1772 False 0 0]; simp)

end
